theory Spec2Isabelle
  imports Complex_Main "HOL-Library.AList"
begin

section \<open>Python values, exceptions and strings\<close>

text \<open>
  The service is \<^verbatim>\<open>backend/server.py\<close>. A Python \<^verbatim>\<open>str\<close> is modelled as a
  \<^typ>\<open>string\<close>, one \<^typ>\<open>char\<close> per code point (code points below 256); \<^verbatim>\<open>bytes\<close> are
  a \<^typ>\<open>string\<close> too, one \<^typ>\<open>char\<close> per byte.

  An exception is a value. Only instances of \<^verbatim>\<open>Exception\<close> are modelled, the class every
  \<^verbatim>\<open>except Exception\<close> clause of the file catches: \<open>HTTPException\<close> carries its
  \<^verbatim>\<open>status_code\<close> and \<^verbatim>\<open>detail\<close>, any other exception carries its \<^verbatim>\<open>str()\<close>.
\<close>

type_synonym bytes = string

datatype exn = HTTPException nat string | PyException string

text \<open>\<^verbatim>\<open>xs[i]\<close> on a list raises \<^verbatim>\<open>IndexError\<close> out of range.\<close>

definition getitem :: "'a list \<Rightarrow> nat \<Rightarrow> exn + 'a" where
  "getitem xs i = (if i < length xs then Inr (xs ! i) else Inl (PyException ''list index out of range''))"

text \<open>
  \<^verbatim>\<open>str.isspace\<close> on the code points below 256: TAB, LF, VT, FF, CR, the separators
  0x1C to 0x1F, SPACE, NEL (0x85) and NBSP (0xA0).
\<close>

definition py_isspace :: "char \<Rightarrow> bool" where
  "py_isspace c = (of_char c \<in> set [9, 10, 11, 12, 13, 28, 29, 30, 31, 32, 133, 160 :: nat])"

text \<open>\<^verbatim>\<open>s.strip()\<close>: whitespace removed at both ends.\<close>

definition strip :: "string \<Rightarrow> string" where
  "strip s = rev (dropWhile py_isspace (rev (dropWhile py_isspace s)))"

text \<open>\<^verbatim>\<open>sub in s\<close>: \<open>sub\<close> occurs in \<open>s\<close> as a substring.\<close>

fun contains :: "string \<Rightarrow> string \<Rightarrow> bool" where
  "contains [] sub = (sub = [])"
| "contains (c # cs) sub = (take (length sub) (c # cs) = sub \<or> contains cs sub)"

text \<open>
  \<^verbatim>\<open>s.split(sep)\<close>: the pieces between the non-overlapping occurrences of \<open>sep\<close>, found
  from the left. Python raises \<^verbatim>\<open>ValueError\<close> on an empty separator; every separator in
  the file is a non-empty literal, and the model returns \<open>[s]\<close> for the empty one.
\<close>

function split :: "string \<Rightarrow> string \<Rightarrow> string list" where
  "split sep [] = [[]]"
| "split sep (c # cs) =
     (if sep \<noteq> [] \<and> take (length sep) (c # cs) = sep
      then [] # split sep (drop (length sep) (c # cs))
      else (case split sep cs of [] \<Rightarrow> [[c]] | p # ps \<Rightarrow> (c # p) # ps))"
  by pat_completeness auto
termination
  by (relation "measure (\<lambda>(sep, s). length s)") (auto simp: neq_Nil_conv)

text \<open>\<^verbatim>\<open>s.endswith(suf)\<close>, \<^verbatim>\<open>s.startswith(pre)\<close> and \<^verbatim>\<open>s.replace(a, b)\<close> for one-character \<open>a\<close>, \<open>b\<close>.\<close>

definition endswith :: "string \<Rightarrow> string \<Rightarrow> bool" where
  "endswith s suf = (length suf \<le> length s \<and> drop (length s - length suf) s = suf)"

definition startswith :: "string \<Rightarrow> string \<Rightarrow> bool" where
  "startswith s pre = (take (length pre) s = pre)"

definition replace :: "char \<Rightarrow> char \<Rightarrow> string \<Rightarrow> string" where
  "replace a b s = map (\<lambda>c. if c = a then b else c) s"

text \<open>
  \<^verbatim>\<open>s.lower()\<close> on the code points below 256: A to Z, and the Latin-1 capitals 0xC0 to
  0xDE except the multiplication sign 0xD7, move up by 32.
\<close>

definition lower_char :: "char \<Rightarrow> char" where
  "lower_char c =
     (let n = (of_char c :: nat)
      in if (65 \<le> n \<and> n \<le> 90) \<or> (192 \<le> n \<and> n \<le> 222 \<and> n \<noteq> 215) then char_of (n + 32) else c)"

definition lower :: "string \<Rightarrow> string" where
  "lower s = map lower_char s"

section \<open>Extraction of the code from the model's response\<close>

definition fence :: string where
  "fence = ''```''"

definition fence_python :: string where
  "fence_python = ''```python''"

text \<open>
  Lines 233 to 241 of \<^verbatim>\<open>generate_analysis_code\<close>:
  \<^verbatim>\<open>
  if "```python" in response:
      code = response.split("```python")[1].split("```")[0].strip()
  elif "```" in response:
      code = response.split("```")[1].split("```")[0].strip()
  else:
      code = response.strip()
  \<close>
\<close>

definition extract_code :: "string \<Rightarrow> exn + string" where
  "extract_code response =
     (if contains response fence_python then
        (case getitem (split fence_python response) 1 of
           Inl e \<Rightarrow> Inl e
         | Inr rest \<Rightarrow>
             (case getitem (split fence rest) 0 of
                Inl e \<Rightarrow> Inl e
              | Inr code \<Rightarrow> Inr (strip code)))
      else if contains response fence then
        (case getitem (split fence response) 1 of
           Inl e \<Rightarrow> Inl e
         | Inr rest \<Rightarrow>
             (case getitem (split fence rest) 0 of
                Inl e \<Rightarrow> Inl e
              | Inr code \<Rightarrow> Inr (strip code)))
      else Inr (strip response))"

text \<open>
  The notions the extraction policy is stated in. \<open>find_sub s sub\<close> is the index of the
  first occurrence of \<open>sub\<close> in \<open>s\<close> (\<^verbatim>\<open>s.find(sub)\<close>); \<open>text_after sep s\<close> is what follows
  that occurrence of \<open>sep\<close>, and \<open>text_before sep s\<close> what precedes it, all of \<open>s\<close> when \<open>sep\<close>
  does not occur.
\<close>

fun find_sub :: "string \<Rightarrow> string \<Rightarrow> nat option" where
  "find_sub [] sub = (if sub = [] then Some 0 else None)"
| "find_sub (c # cs) sub =
     (if take (length sub) (c # cs) = sub then Some 0 else map_option Suc (find_sub cs sub))"

definition text_after :: "string \<Rightarrow> string \<Rightarrow> string" where
  "text_after sep s = (case find_sub s sep of None \<Rightarrow> [] | Some i \<Rightarrow> drop (i + length sep) s)"

definition text_before :: "string \<Rightarrow> string \<Rightarrow> string" where
  "text_before sep s = (case find_sub s sep of None \<Rightarrow> s | Some i \<Rightarrow> take i s)"

section \<open>Values, uploads and records of the service\<close>

text \<open>A \<^verbatim>\<open>DataFrame\<close>, as far as the service looks at it: \<^verbatim>\<open>df.shape\<close> and \<^verbatim>\<open>df.columns.tolist()\<close>.\<close>

record dataframe =
  shape :: "nat \<times> nat"
  columns :: "string list"

text \<open>
  The values the execution namespace can hold. A builtin, a library handle or a helper
  function is named; \<open>PyObject\<close> stands for any other object a script computes.
\<close>

datatype pyval =
    PyNone
  | PyInt int
  | PyStr string
  | PyFrame dataframe
  | PyBuiltin string
  | PyLibrary string
  | PyDict "(string \<times> pyval) list"
  | PyObject nat

text \<open>A \<^verbatim>\<open>dict\<close> keyed by strings keeps insertion order: an association list.\<close>

type_synonym namespace = "(string \<times> pyval) list"

text \<open>\<^verbatim>\<open>d.update(other)\<close>: each pair of \<open>other\<close> in turn is stored in \<open>d\<close>.\<close>

definition dict_update :: "namespace \<Rightarrow> namespace \<Rightarrow> namespace" where
  "dict_update d other = foldl (\<lambda>acc kv. AList.update (fst kv) (snd kv) acc) d other"

text \<open>What \<^verbatim>\<open>process_image_file\<close> reads from an image.\<close>

record image_info =
  img_format :: string
  img_size :: "nat \<times> nat"
  img_mode :: string

text \<open>The descriptor entries of \<^verbatim>\<open>file_info\<close> (lines 267 to 272, 286, 297, 307 and 320).\<close>

record dataframe_entry =
  df_name :: string
  df_shape :: "nat \<times> nat"
  df_columns :: "string list"
  df_filename :: string

record text_entry =
  tx_name :: string
  tx_filename :: string
  tx_length :: nat

record image_entry =
  im_name :: string
  im_filename :: string
  im_info :: "image_info option"

record file_info =
  files :: "string list"
  dataframes :: "dataframe_entry list"
  text_content :: "text_entry list"
  images :: "image_entry list"

text \<open>An \<^verbatim>\<open>UploadFile\<close>: its name and its bytes.\<close>

record upload =
  filename :: string
  content :: bytes

text \<open>\<^verbatim>\<open>AnalysisRequest\<close>, the record of the request log, and \<^verbatim>\<open>AnalysisResult\<close>, the response.\<close>

record analysis_request =
  req_task_id :: string
  req_timestamp :: real
  req_question :: string
  files_processed :: "string list"
  req_status :: string

record analysis_result =
  task_id :: string
  result :: pyval
  execution_time :: real
  status :: string
  error :: "string option"

text \<open>
  The state a request changes: the paths that exist on disk, and the collection
  \<^verbatim>\<open>db.analysis_requests\<close>.
\<close>

record world =
  disk :: "string list"
  analysis_requests :: "analysis_request list"

section \<open>The libraries and services the handler calls\<close>

text \<open>
  Everything outside the file is a parameter: what each library call returns or raises.
  \<^item> \<open>http_exception_str c d\<close>: \<^verbatim>\<open>str()\<close> of \<^verbatim>\<open>HTTPException(status_code=c, detail=d)\<close>;
  \<^item> \<open>start_clock\<close>: the loop's clock at line 253; \<open>end_clock\<close>: the clock at line 346 or
    at line 361, whichever the request reaches (it reaches exactly one);
  \<^item> \<open>uuid4\<close>: the task identifier of line 254; \<open>utcnow\<close>: the default timestamp;
  \<^item> \<open>decode_utf8\<close>: \<^verbatim>\<open>bytes.decode('utf-8')\<close>; \<open>read_text\<close>: reading a file as UTF-8 text;
  \<^item> \<open>mkdtemp\<close>, \<open>path_join\<close> (\<^verbatim>\<open>Path(d) / name\<close>), \<open>write_file\<close> (lines 278, 279);
  \<^item> \<open>read_csv\<close>, \<open>pdf_pages\<close> (the reader, then \<^verbatim>\<open>extract_text\<close> of each page),
    \<open>image_open\<close>, each applied to the bytes just saved;
  \<^item> \<open>json_dumps\<close>, \<open>send_message\<close> (system message, user message);
  \<^item> \<open>exec\<close>: the interpreter on a code string, a globals dictionary and the disk: the
    local variables or an exception, and the disk the script leaves;
  \<^item> \<open>insert_one\<close>: the insertion into the collection, \<open>None\<close> when it succeeds;
  \<^item> \<open>removable\<close>: whether the file system lets \<^verbatim>\<open>shutil.rmtree\<close> remove a path.
\<close>

record env =
  http_exception_str :: "nat \<Rightarrow> string \<Rightarrow> string"
  start_clock :: real
  end_clock :: real
  uuid4 :: string
  utcnow :: real
  decode_utf8 :: "bytes \<Rightarrow> exn + string"
  read_text :: "bytes \<Rightarrow> exn + string"
  mkdtemp :: "exn + string"
  path_join :: "string \<Rightarrow> string \<Rightarrow> string"
  write_file :: "string \<Rightarrow> bytes \<Rightarrow> exn option"
  read_csv :: "bytes \<Rightarrow> exn + dataframe"
  pdf_pages :: "bytes \<Rightarrow> exn + (exn + string) list"
  image_open :: "bytes \<Rightarrow> exn + image_info"
  json_dumps :: "file_info \<Rightarrow> exn + string"
  send_message :: "string \<Rightarrow> string \<Rightarrow> exn + string"
  exec :: "string \<Rightarrow> namespace \<Rightarrow> string list \<Rightarrow> (exn + namespace) \<times> string list"
  insert_one :: "analysis_request \<Rightarrow> exn option"
  removable :: "string \<Rightarrow> bool"

text \<open>\<^verbatim>\<open>str(e)\<close>.\<close>

definition str_exn :: "env \<Rightarrow> exn \<Rightarrow> string" where
  "str_exn E e = (case e of HTTPException c d \<Rightarrow> http_exception_str E c d | PyException m \<Rightarrow> m)"

section \<open>File processing utilities\<close>

definition process_csv_file :: "env \<Rightarrow> bytes \<Rightarrow> exn + dataframe" where
  "process_csv_file E data =
     (case read_csv E data of
        Inr df \<Rightarrow> Inr df
      | Inl e \<Rightarrow> Inl (HTTPException 400 (''Error processing CSV: '' @ str_exn E e)))"

text \<open>The loop of lines 96 and 97: \<^verbatim>\<open>text += page.extract_text() + "\n"\<close>.\<close>

fun extract_pages :: "(exn + string) list \<Rightarrow> string \<Rightarrow> exn + string" where
  "extract_pages [] text = Inr text"
| "extract_pages (page # pages) text =
     (case page of
        Inl e \<Rightarrow> Inl e
      | Inr t \<Rightarrow> extract_pages pages (text @ t @ ''\<newline>''))"

definition process_pdf_file :: "env \<Rightarrow> bytes \<Rightarrow> string" where
  "process_pdf_file E data =
     (case pdf_pages E data of
        Inl e \<Rightarrow> ''''
      | Inr pages \<Rightarrow> (case extract_pages pages '''' of Inl e \<Rightarrow> '''' | Inr text \<Rightarrow> text))"

text \<open>The empty dictionary of line 114 is \<open>None\<close>.\<close>

definition process_image_file :: "env \<Rightarrow> bytes \<Rightarrow> image_info option" where
  "process_image_file E data = (case image_open E data of Inl e \<Rightarrow> None | Inr info \<Rightarrow> Some info)"

section \<open>The execution sandbox\<close>

definition allowed_builtins :: "string list" where
  "allowed_builtins =
     [''print'', ''len'', ''str'', ''int'', ''float'', ''list'', ''dict'', ''tuple'', ''range'',
      ''enumerate'', ''zip'', ''min'', ''max'', ''sum'', ''abs'', ''round'', ''sorted'']"

definition safe_globals :: namespace where
  "safe_globals =
     [(''__builtins__'', PyDict (map (\<lambda>n. (n, PyBuiltin n)) allowed_builtins)),
      (''pd'', PyLibrary ''pandas''),
      (''np'', PyLibrary ''numpy''),
      (''plt'', PyLibrary ''matplotlib.pyplot''),
      (''go'', PyLibrary ''plotly.graph_objects''),
      (''px'', PyLibrary ''plotly.express''),
      (''requests'', PyLibrary ''requests''),
      (''BeautifulSoup'', PyLibrary ''bs4.BeautifulSoup''),
      (''base64'', PyLibrary ''base64''),
      (''BytesIO'', PyLibrary ''io.BytesIO''),
      (''create_plot_base64'', PyLibrary ''create_plot_base64''),
      (''scrape_wikipedia_table'', PyLibrary ''scrape_wikipedia_table'')]"

text \<open>Lines 154 to 188: the namespace \<^verbatim>\<open>exec\<close> receives as its globals.\<close>

definition sandbox_globals :: "namespace \<Rightarrow> namespace" where
  "sandbox_globals context = dict_update safe_globals context"

definition execute_analysis_code ::
  "env \<Rightarrow> string \<Rightarrow> namespace \<Rightarrow> string list \<Rightarrow> (exn + pyval) \<times> string list" where
  "execute_analysis_code E code context dsk =
     (case exec E code (sandbox_globals context) dsk of
        (Inl e, dsk') \<Rightarrow> (Inl (HTTPException 500 (''Code execution error: '' @ str_exn E e)), dsk')
      | (Inr local_vars, dsk') \<Rightarrow>
          (case map_of local_vars ''result'' of
             Some v \<Rightarrow> (Inr v, dsk')
           | None \<Rightarrow> (Inr (PyStr ''Code executed successfully but no result variable found''), dsk')))"

section \<open>Code generation\<close>

definition system_message :: string where
  "system_message =
     ''You are an expert data analyst. Generate Python code to answer data analysis questions.\<newline>\<newline>'' @
     ''IMPORTANT RULES:\<newline>'' @
     ''1. Always store the final answer in a variable called 'result'\<newline>'' @
     ''2. Use the provided context variables (dataframes, data, etc.)\<newline>'' @
     ''3. For plots, use create_plot_base64() function to return base64 encoded images\<newline>'' @
     ''4. Keep code concise and focused on the specific question\<newline>'' @
     ''5. Handle edge cases and potential errors\<newline>'' @
     ''6. For web scraping, use scrape_wikipedia_table() function for Wikipedia tables\<newline>'' @
     ''7. Return JSON arrays or objects as specified in the question\<newline>\<newline>'' @
     ''Available libraries: pandas (pd), numpy (np), matplotlib.pyplot (plt), plotly.graph_objects (go), plotly.express (px)\<newline>'' @
     ''Available functions: create_plot_base64(), scrape_wikipedia_table()\<newline>\<newline>'' @
     ''Context information: ''"

definition user_message :: "string \<Rightarrow> string" where
  "user_message question =
     ''Generate Python code to answer this question: '' @ question @
     ''\<newline>\<newline>The code should store the final answer in a variable called 'result'.''"

definition generate_analysis_code :: "env \<Rightarrow> string \<Rightarrow> file_info \<Rightarrow> exn + string" where
  "generate_analysis_code E question info =
     (case (case json_dumps E info of
              Inl e \<Rightarrow> Inl e
            | Inr js \<Rightarrow>
                (case send_message E (system_message @ js) (user_message question) of
                   Inl e \<Rightarrow> Inl e
                 | Inr response \<Rightarrow> extract_code response)) of
        Inr code \<Rightarrow> Inr code
      | Inl e \<Rightarrow> Inl (HTTPException 500 (''LLM code generation error: '' @ str_exn E e)))"

section \<open>The analysis endpoint\<close>

text \<open>
  The variable name of lines 284, 295, 305 and 318:
  \<^verbatim>\<open>f"df_{file.filename.replace('.', '_').replace('-', '_')}"\<close>, with the prefix of the
  file's category.
\<close>

definition var_name :: "string \<Rightarrow> string \<Rightarrow> string" where
  "var_name pre fn = pre @ replace (CHR ''-'') (CHR ''_'') (replace (CHR ''.'') (CHR ''_'') fn)"

text \<open>The prefixes those four lines use.\<close>

definition name_prefixes :: "string list" where
  "name_prefixes = [''df_'', ''text_'', ''img_path_'']"

text \<open>
  Lines 282 to 326, the branch on the file type. The processing functions read the path the
  file was just saved under, so they see the bytes of the upload.
\<close>

definition bind_file ::
  "env \<Rightarrow> string \<Rightarrow> upload \<Rightarrow> namespace \<times> file_info \<Rightarrow> exn + namespace \<times> file_info" where
  "bind_file E file_path file st =
     (case st of (file_context, info) \<Rightarrow>
        if endswith (filename file) ''.csv'' then
          (case process_csv_file E (content file) of
             Inl e \<Rightarrow> Inl e
           | Inr df \<Rightarrow>
               (let v = var_name ''df_'' (filename file)
                in Inr (AList.update v (PyFrame df) file_context,
                        info\<lparr>dataframes := dataframes info @
                          [\<lparr>df_name = v, df_shape = shape df, df_columns = columns df,
                            df_filename = filename file\<rparr>]\<rparr>)))
        else if endswith (filename file) ''.pdf'' then
          (let text = process_pdf_file E (content file);
               v = var_name ''text_'' (filename file)
           in Inr (AList.update v (PyStr text) file_context,
                   info\<lparr>text_content := text_content info @
                     [\<lparr>tx_name = v, tx_filename = filename file, tx_length = length text\<rparr>]\<rparr>))
        else if endswith (lower (filename file)) ''.png'' \<or> endswith (lower (filename file)) ''.jpg''
                \<or> endswith (lower (filename file)) ''.jpeg'' then
          (let img_info = process_image_file E (content file);
               v = var_name ''img_path_'' (filename file)
           in Inr (AList.update v (PyStr file_path) file_context,
                   info\<lparr>images := images info @
                     [\<lparr>im_name = v, im_filename = filename file, im_info = img_info\<rparr>]\<rparr>))
        else
          (case read_text E (content file) of
             Inl e \<Rightarrow> Inr (file_context, info)
           | Inr text \<Rightarrow>
               (let v = var_name ''text_'' (filename file)
                in Inr (AList.update v (PyStr text) file_context,
                        info\<lparr>text_content := text_content info @
                          [\<lparr>tx_name = v, tx_filename = filename file, tx_length = length text\<rparr>]\<rparr>))))"

text \<open>One round of the loop of line 274: save the file, bind it, append its name (line 328).\<close>

definition ingest_file ::
  "env \<Rightarrow> string \<Rightarrow> upload \<Rightarrow> namespace \<times> file_info \<Rightarrow> string list
     \<Rightarrow> (exn + namespace \<times> file_info) \<times> string list" where
  "ingest_file E temp_dir file st dsk =
     (let file_path = path_join E temp_dir (filename file)
      in case write_file E file_path (content file) of
           Some e \<Rightarrow> (Inl e, dsk)
         | None \<Rightarrow>
             (case bind_file E file_path file st of
                Inl e \<Rightarrow> (Inl e, List.insert file_path dsk)
              | Inr (file_context, info) \<Rightarrow>
                  (Inr (file_context, info\<lparr>files := files info @ [filename file]\<rparr>),
                   List.insert file_path dsk)))"

fun ingest_files ::
  "env \<Rightarrow> string \<Rightarrow> upload list \<Rightarrow> namespace \<times> file_info \<Rightarrow> string list
     \<Rightarrow> (exn + namespace \<times> file_info) \<times> string list" where
  "ingest_files E temp_dir [] st dsk = (Inr st, dsk)"
| "ingest_files E temp_dir (file # rest) st dsk =
     (case ingest_file E temp_dir file st dsk of
        (Inl e, dsk') \<Rightarrow> (Inl e, dsk')
      | (Inr st', dsk') \<Rightarrow> ingest_files E temp_dir rest st' dsk')"

definition empty_file_info :: file_info where
  "empty_file_info = \<lparr>files = [], dataframes = [], text_content = [], images = []\<rparr>"

text \<open>The paths of the tree rooted at \<open>d\<close>: \<open>d\<close> itself and what lies below it.\<close>

definition in_tree :: "string \<Rightarrow> string \<Rightarrow> bool" where
  "in_tree d p = (p = d \<or> startswith p (d @ ''/''))"

text \<open>
  \<^verbatim>\<open>shutil.rmtree(temp_dir, ignore_errors=True)\<close>: the tree is removed from the leaves up. A
  path the file system does not let go stays, and with it every directory above it, which
  is then not empty; with \<^verbatim>\<open>ignore_errors=True\<close> the call reports none of this and returns.
  So a path of the tree stays exactly when it, or a path on the disk below it, is not
  removable, and the paths outside the tree are not touched.
\<close>

definition rmtree :: "env \<Rightarrow> string \<Rightarrow> string list \<Rightarrow> string list" where
  "rmtree E d dsk =
     filter (\<lambda>p. \<not> in_tree d p \<or> list_ex (\<lambda>q. in_tree p q \<and> \<not> removable E q) dsk) dsk"

text \<open>Lines 265 to 353, the body of the inner \<^verbatim>\<open>try\<close>.\<close>

definition workspace_block ::
  "env \<Rightarrow> string \<Rightarrow> string \<Rightarrow> string \<Rightarrow> upload list \<Rightarrow> world \<Rightarrow> (exn + analysis_result) \<times> world" where
  "workspace_block E tid questions_text temp_dir uploads w =
     (case ingest_files E temp_dir uploads ([], empty_file_info) (disk w) of
        (Inl e, d1) \<Rightarrow> (Inl e, w\<lparr>disk := d1\<rparr>)
      | (Inr (file_context, info), d1) \<Rightarrow>
          (case generate_analysis_code E questions_text info of
             Inl e \<Rightarrow> (Inl e, w\<lparr>disk := d1\<rparr>)
           | Inr analysis_code \<Rightarrow>
               (case execute_analysis_code E analysis_code file_context d1 of
                  (Inl e, d2) \<Rightarrow> (Inl e, w\<lparr>disk := d2\<rparr>)
                | (Inr res, d2) \<Rightarrow>
                    (let request = \<lparr>req_task_id = tid, req_timestamp = utcnow E,
                                    req_question = questions_text, files_processed = files info,
                                    req_status = ''completed''\<rparr>
                     in case insert_one E request of
                          Some e \<Rightarrow> (Inl e, w\<lparr>disk := d2\<rparr>)
                        | None \<Rightarrow>
                            (Inr \<lparr>task_id = tid, result = res,
                                  execution_time = end_clock E - start_clock E,
                                  status = ''completed'', error = None\<rparr>,
                             w\<lparr>disk := d2,
                               analysis_requests := analysis_requests w @ [request]\<rparr>)))))"

text \<open>
  Lines 257 to 357, the body of the outer \<^verbatim>\<open>try\<close>: the question is decoded, the
  workspace created, and the \<^verbatim>\<open>finally\<close> clause calls its removal whatever the inner body
  did.
\<close>

definition try_block ::
  "env \<Rightarrow> string \<Rightarrow> bytes \<Rightarrow> upload list \<Rightarrow> world \<Rightarrow> (exn + analysis_result) \<times> world" where
  "try_block E tid questions uploads w =
     (case decode_utf8 E questions of
        Inl e \<Rightarrow> (Inl e, w)
      | Inr questions_text \<Rightarrow>
          (case mkdtemp E of
             Inl e \<Rightarrow> (Inl e, w)
           | Inr temp_dir \<Rightarrow>
               (case workspace_block E tid questions_text temp_dir uploads
                       (w\<lparr>disk := temp_dir # disk w\<rparr>) of
                  (r, w') \<Rightarrow> (r, w'\<lparr>disk := rmtree E temp_dir (disk w')\<rparr>))))"

text \<open>
  The handler: what it returns (\<open>Inr\<close>) or raises (\<open>Inl\<close>), and the world it leaves. The
  \<^verbatim>\<open>except Exception\<close> clause of line 359 turns every exception into a result.
\<close>

definition analyze_data ::
  "env \<Rightarrow> bytes \<Rightarrow> upload list \<Rightarrow> world \<Rightarrow> (exn + analysis_result) \<times> world" where
  "analyze_data E questions uploads w =
     (let start_time = start_clock E; tid = uuid4 E
      in case try_block E tid questions uploads w of
           (Inr r, w') \<Rightarrow> (Inr r, w')
         | (Inl e, w') \<Rightarrow>
             (Inr \<lparr>task_id = tid, result = PyNone, execution_time = end_clock E - start_time,
                   status = ''error'', error = Some (str_exn E e)\<rparr>, w'))"

text \<open>
  The status of the HTTP response: 200 for a returned result, the exception's own status
  for a raised \<open>HTTPException\<close>, 500 for any other exception.
\<close>

definition http_status :: "exn + analysis_result \<Rightarrow> nat" where
  "http_status r =
     (case r of Inr _ \<Rightarrow> 200 | Inl (HTTPException c _) \<Rightarrow> c | Inl (PyException _) \<Rightarrow> 500)"

section \<open>Two notions of the specification\<close>

text \<open>
  The specification speaks of page texts "concatenated with a newline separator", which is
  what \<^verbatim>\<open>"\n".join(texts)\<close> computes, and of "non-alphanumeric characters"; on the ASCII
  characters, alphanumeric means a digit or a letter.
\<close>

fun join_newline :: "string list \<Rightarrow> string" where
  "join_newline [] = []"
| "join_newline [t] = t"
| "join_newline (t # ts) = t @ ''\<newline>'' @ join_newline ts"

definition alphanumeric :: "char \<Rightarrow> bool" where
  "alphanumeric c =
     (let n = (of_char c :: nat)
      in (48 \<le> n \<and> n \<le> 57) \<or> (65 \<le> n \<and> n \<le> 90) \<or> (97 \<le> n \<and> n \<le> 122))"

section \<open>A concrete environment\<close>

text \<open>
  An environment to run the handler in: the model answers with a fenced block, the
  interpreter knows one script, one CSV and one PDF parse, and nothing else fails.
\<close>

definition demo_env :: env where
  "demo_env =
     \<lparr>http_exception_str = (\<lambda>c d. (if c = 400 then ''400'' else ''500'') @ '': '' @ d),
      start_clock = 10,
      end_clock = 12,
      uuid4 = ''task-1'',
      utcnow = 0,
      decode_utf8 = Inr,
      read_text = (\<lambda>b. if b = [CHR 0xFF] then Inl (PyException ''invalid start byte'') else Inr b),
      mkdtemp = Inr ''/tmp/tmpab'',
      path_join = (\<lambda>d f. d @ ''/'' @ f),
      write_file = (\<lambda>p b. None),
      read_csv = (\<lambda>b. if b = ''a,b\<newline>1,2\<newline>''
                       then Inr \<lparr>shape = (1, 2), columns = [''a'', ''b'']\<rparr>
                       else Inl (PyException ''Error tokenizing data'')),
      pdf_pages = (\<lambda>b. if b = ''%PDF'' then Inr [Inr ''one'', Inr ''two'']
                        else Inl (PyException ''EOF marker not found'')),
      image_open = (\<lambda>b. Inl (PyException ''cannot identify image file'')),
      json_dumps = (\<lambda>i. Inr ''{}''),
      send_message = (\<lambda>s u. Inr ''Here:\<newline>```python\<newline>result = 4\<newline>```''),
      exec = (\<lambda>code g d. if code = ''result = 4'' then (Inr [(''result'', PyInt 4)], d)
                         else (Inl (PyException ''invalid syntax''), d)),
      insert_one = (\<lambda>r. None),
      removable = (\<lambda>p. True)\<rparr>"

definition demo_world :: world where
  "demo_world = \<lparr>disk = [''/tmp''], analysis_requests = []\<rparr>"

section \<open>Properties of the string operations\<close>

lemma find_sub_None: "find_sub s sub = None \<longleftrightarrow> \<not> contains s sub"
  by (induction s) auto

lemma find_sub_occurs: "find_sub s sub = Some i \<Longrightarrow> take (length sub) (drop i s) = sub"
proof (induction s arbitrary: i)
  case Nil
  then show ?case by (simp split: if_splits)
next
  case (Cons c cs)
  then show ?case by (auto split: if_splits)
qed

lemma find_sub_first:
  "find_sub s sub = Some i \<Longrightarrow> j < i \<Longrightarrow> take (length sub) (drop j s) \<noteq> sub"
proof (induction s arbitrary: i j)
  case Nil
  then show ?case by (simp split: if_splits)
next
  case (Cons c cs)
  show ?case
  proof (cases j)
    case 0
    with Cons.prems show ?thesis by (auto split: if_splits)
  next
    case (Suc j')
    with Cons.prems obtain i' where "find_sub cs sub = Some i'" "i = Suc i'"
      by (auto split: if_splits)
    with Cons.IH [of i' j'] Cons.prems Suc show ?thesis by simp
  qed
qed

lemma find_sub_bound: "find_sub s sub = Some i \<Longrightarrow> i + length sub \<le> length s"
proof (induction s arbitrary: i)
  case Nil
  then show ?case by (simp split: if_splits)
next
  case (Cons c cs)
  show ?case
  proof (cases "take (length sub) (c # cs) = sub")
    case True
    then have "length (take (length sub) (c # cs)) = length sub"
      by simp
    then have "length sub \<le> length (c # cs)"
      by (simp del: take_Suc_Cons)
    with True Cons.prems show ?thesis by simp
  next
    case False
    with Cons.prems obtain i' where "find_sub cs sub = Some i'" "i = Suc i'"
      by auto
    with Cons.IH [of i'] show ?thesis by simp
  qed
qed

lemma split_not_Nil: "split sep s \<noteq> []"
  by (induction sep s rule: split.induct) (auto split: list.splits)

lemma split_find_sub:
  "sep \<noteq> [] \<Longrightarrow>
   split sep s = (case find_sub s sep of None \<Rightarrow> [s]
                  | Some i \<Rightarrow> take i s # split sep (drop (i + length sep) s))"
proof (induction s)
  case Nil
  then show ?case by simp
next
  case (Cons c cs)
  show ?case
  proof (cases "take (length sep) (c # cs) = sep")
    case True
    with Cons.prems show ?thesis by simp
  next
    case False
    with Cons show ?thesis by (auto split: option.splits)
  qed
qed

lemma find_sub_text_before: "find_sub (text_before sep s) sep = None \<or> sep = []"
proof (cases "find_sub s sep")
  case None
  then show ?thesis by (simp add: text_before_def)
next
  case (Some i)
  show ?thesis
  proof (rule ccontr)
    assume a: "\<not> (find_sub (text_before sep s) sep = None \<or> sep = [])"
    then obtain j where j: "find_sub (take i s) sep = Some j" and ne: "sep \<noteq> []"
      using Some by (auto simp: text_before_def)
    from find_sub_bound [OF j] have b: "j + length sep \<le> i"
      by simp
    from find_sub_occurs [OF j] have "take (length sep) (drop j (take i s)) = sep" .
    moreover have "length sep \<le> i - j"
      using b by simp
    ultimately have "take (length sep) (drop j s) = sep"
      by (simp add: drop_take min_absorb1)
    moreover have "j < i" using b ne by (cases sep) auto
    ultimately show False using find_sub_first [OF Some] by blast
  qed
qed

lemma split_first_piece: "sep \<noteq> [] \<Longrightarrow> getitem (split sep s) 0 = Inr (text_before sep s)"
  by (simp add: split_find_sub [of sep s] getitem_def text_before_def split: option.splits)

lemma split_second_piece:
  "sep \<noteq> [] \<Longrightarrow> contains s sep \<Longrightarrow>
   getitem (split sep s) 1 = Inr (text_before sep (text_after sep s))"
proof -
  assume ne: "sep \<noteq> []" and c: "contains s sep"
  then obtain i where i: "find_sub s sep = Some i"
    using find_sub_None [of s sep] by (cases "find_sub s sep") auto
  let ?r = "drop (i + length sep) s"
  have "split sep s = take i s # split sep ?r"
    using ne i by (simp add: split_find_sub [of sep s])
  moreover have "getitem (split sep ?r) 0 = Inr (text_before sep ?r)"
    using ne by (rule split_first_piece)
  ultimately show ?thesis
    using i by (auto simp: getitem_def text_after_def split: if_splits)
qed

lemma text_before_idem: "sep \<noteq> [] \<Longrightarrow> text_before sep (text_before sep s) = text_before sep s"
  using find_sub_text_before [of sep s] by (auto simp: text_before_def [of sep "text_before sep s"])

lemma contains_take: "contains s sub \<longleftrightarrow> (\<exists>i. take (length sub) (drop i s) = sub)"
proof (induction s)
  case Nil
  then show ?case by auto
next
  case (Cons c cs)
  show ?case
  proof
    assume "contains (c # cs) sub"
    then consider "take (length sub) (c # cs) = sub" | "contains cs sub" by auto
    then show "\<exists>i. take (length sub) (drop i (c # cs)) = sub"
    proof cases
      case 1
      then have "take (length sub) (drop 0 (c # cs)) = sub" by simp
      then show ?thesis by blast
    next
      case 2
      with Cons.IH obtain i where "take (length sub) (drop i cs) = sub" by blast
      then have "take (length sub) (drop (Suc i) (c # cs)) = sub" by simp
      then show ?thesis by blast
    qed
  next
    assume "\<exists>i. take (length sub) (drop i (c # cs)) = sub"
    then obtain i where i: "take (length sub) (drop i (c # cs)) = sub" by blast
    show "contains (c # cs) sub"
    proof (cases i)
      case 0
      with i show ?thesis by simp
    next
      case (Suc j)
      with i have "take (length sub) (drop j cs) = sub" by simp
      with Cons.IH show ?thesis by auto
    qed
  qed
qed

lemma contains_prefix: "contains s (a @ b) \<Longrightarrow> contains s a"
proof -
  assume "contains s (a @ b)"
  then obtain i where "take (length (a @ b)) (drop i s) = a @ b"
    using contains_take by blast
  then have "take (length a) (take (length (a @ b)) (drop i s)) = a"
    by simp
  then have "take (length a) (drop i s) = a"
    by (simp add: min_def)
  then show ?thesis using contains_take by blast
qed

lemma fence_python_has_fence: "contains r fence_python \<Longrightarrow> contains r fence"
proof -
  have "fence_python = fence @ ''python''"
    by (simp add: fence_def fence_python_def)
  then show "contains r fence_python \<Longrightarrow> contains r fence"
    using contains_prefix by metis
qed

section \<open>The extraction policy\<close>

text \<open>
  C6 (as amended). For every raw response, the extraction succeeds and returns, with the
  whitespace at both ends stripped: when the text \<^verbatim>\<open>```python\<close> occurs, what follows its first
  occurrence, up to the next \<^verbatim>\<open>```python\<close> if there is one, cut before the first \<^verbatim>\<open>```\<close>;
  otherwise, when \<^verbatim>\<open>```\<close> occurs, what lies between its first occurrence and the next one (or
  the end of the response); otherwise the entire response.
\<close>

theorem extract_code_policy:
  "(contains r fence_python \<longrightarrow>
      extract_code r = Inr (strip (text_before fence (text_before fence_python (text_after fence_python r))))) \<and>
   (\<not> contains r fence_python \<and> contains r fence \<longrightarrow>
      extract_code r = Inr (strip (text_before fence (text_after fence r)))) \<and>
   (\<not> contains r fence \<longrightarrow> extract_code r = Inr (strip r))"
proof -
  have nf: "fence \<noteq> []" and np: "fence_python \<noteq> []"
    by (simp_all add: fence_def fence_python_def)
  have tagged: "extract_code r = Inr (strip (text_before fence (text_before fence_python (text_after fence_python r))))"
    if c: "contains r fence_python"
    using c split_second_piece [OF np c] split_first_piece [OF nf]
    by (simp add: extract_code_def)
  have untagged: "extract_code r = Inr (strip (text_before fence (text_after fence r)))"
    if c: "\<not> contains r fence_python" "contains r fence"
    using c split_second_piece [OF nf c(2)] split_first_piece [OF nf] text_before_idem [OF nf]
    by (simp add: extract_code_def)
  have plain: "extract_code r = Inr (strip r)" if c: "\<not> contains r fence"
    using c fence_python_has_fence [of r] by (auto simp: extract_code_def)
  from tagged untagged plain show ?thesis by blast
qed

text \<open>When the tagged fence occurs once, the block runs to the next fence of any kind.\<close>

lemma single_python_fence:
  "\<not> contains (text_after fence_python r) fence_python \<Longrightarrow>
   text_before fence_python (text_after fence_python r) = text_after fence_python r"
  using find_sub_None [of "text_after fence_python r" fence_python]
  by (simp add: text_before_def [of fence_python])

theorem extract_code_policy_witness:
  "extract_code ''Here:\<newline>```python\<newline>result = 4\<newline>```'' = Inr ''result = 4'' \<and>
   extract_code ''```\<newline>x = 1\<newline>```'' = Inr ''x = 1'' \<and>
   extract_code ''result = 2 '' = Inr ''result = 2''"
proof -
  have a: "contains ''Here:\<newline>```python\<newline>result = 4\<newline>```'' fence_python"
    by (simp add: fence_python_def)
  have b: "\<not> contains ''```\<newline>x = 1\<newline>```'' fence_python \<and> contains ''```\<newline>x = 1\<newline>```'' fence"
    by (simp add: fence_python_def fence_def)
  have c: "\<not> contains ''result = 2 '' fence"
    by (simp add: fence_def)
  from a b c extract_code_policy [of "''Here:\<newline>```python\<newline>result = 4\<newline>```''"]
    extract_code_policy [of "''```\<newline>x = 1\<newline>```''"]
    extract_code_policy [of "''result = 2 ''"]
  show ?thesis
    by (simp add: text_before_def text_after_def strip_def py_isspace_def fence_def fence_python_def)
qed

text \<open>
  C6 as stated fails: a response without any fence is not returned whole, its leading
  whitespace (which is indentation to the interpreter) is gone.
\<close>

theorem extract_code_counterexample:
  "\<not> contains '' result = 4'' fence \<and> extract_code '' result = 4'' \<noteq> Inr '' result = 4''"
  by (simp add: extract_code_def fence_def fence_python_def strip_def py_isspace_def)

definition prefixes :: "string set" where "prefixes = set name_prefixes"

section \<open>The names bound by the ingestion loop\<close>


lemma var_name_not_reserved:
  "pre \<in> set name_prefixes \<Longrightarrow> var_name pre fn \<notin> fst ` set safe_globals"
  by (auto simp: var_name_def safe_globals_def name_prefixes_def)

lemma bind_file_cases:
  assumes "bind_file E p f (ctx, info) = Inr (ctx', info')"
  shows "files info' = files info \<and>
         (ctx' = ctx \<or> (\<exists>pre v. pre \<in> set name_prefixes \<and>
                              ctx' = AList.update (var_name pre (filename f)) v ctx))"
proof -
  have p: "''df_'' \<in> set name_prefixes" "''text_'' \<in> set name_prefixes"
    "''img_path_'' \<in> set name_prefixes"
    by (simp_all add: name_prefixes_def)
  show ?thesis
  proof (cases "endswith (filename f) ''.csv''")
    case True
    with assms p(1) show ?thesis
      by (auto simp: bind_file_def Let_def split: sum.splits)
  next
    case csv: False
    show ?thesis
    proof (cases "endswith (filename f) ''.pdf''")
      case True
      with csv assms p(2) show ?thesis
        by (auto simp: bind_file_def Let_def)
    next
      case pdf: False
      show ?thesis
      proof (cases "endswith (lower (filename f)) ''.png'' \<or> endswith (lower (filename f)) ''.jpg''
                \<or> endswith (lower (filename f)) ''.jpeg''")
        case True
        with csv pdf assms p(3) show ?thesis
          by (auto simp: bind_file_def Let_def)
      next
        case False
        with csv pdf assms p(2) show ?thesis
          by (auto simp: bind_file_def Let_def split: sum.splits)
      qed
    qed
  qed
qed

lemma ingest_file_ok:
  assumes "ingest_file E d f (ctx, info) dsk = (Inr (ctx', info'), dsk')"
  shows "files info' = files info @ [filename f] \<and>
         (\<forall>k \<in> fst ` set ctx'. k \<in> fst ` set ctx \<or>
            (\<exists>pre \<in> set name_prefixes. k = var_name pre (filename f)))"
proof -
  from assms obtain info1 where
    b: "bind_file E (path_join E d (filename f)) f (ctx, info) = Inr (ctx', info1)"
    and i: "info' = info1\<lparr>files := files info1 @ [filename f]\<rparr>"
    by (auto simp: ingest_file_def Let_def split: option.splits sum.splits prod.splits)
  from bind_file_cases [OF b] have f: "files info1 = files info"
    and c: "ctx' = ctx \<or> (\<exists>pre v. pre \<in> set name_prefixes \<and>
                              ctx' = AList.update (var_name pre (filename f)) v ctx)"
    by blast+
  from c have "\<forall>k \<in> fst ` set ctx'. k \<in> fst ` set ctx \<or>
            (\<exists>pre \<in> set name_prefixes. k = var_name pre (filename f))"
  proof
    assume "ctx' = ctx"
    then show ?thesis by blast
  next
    assume "\<exists>pre v. pre \<in> set name_prefixes \<and>
                              ctx' = AList.update (var_name pre (filename f)) v ctx"
    then obtain pre v where p: "pre \<in> set name_prefixes"
      and u: "ctx' = AList.update (var_name pre (filename f)) v ctx"
      by blast
    from u have "fst ` set ctx' = {var_name pre (filename f)} \<union> fst ` set ctx"
      by (simp only: dom_update)
    with p show ?thesis by blast
  qed
  with f i show ?thesis by simp
qed

lemma ingest_files_ok:
  assumes "ingest_files E d ups (ctx, info) dsk = (Inr (ctx', info'), dsk')"
  shows "files info' = files info @ map filename ups \<and>
         (\<forall>k \<in> fst ` set ctx'. k \<in> fst ` set ctx \<or>
            (\<exists>f \<in> set ups. \<exists>pre \<in> set name_prefixes. k = var_name pre (filename f)))"
  using assms
proof (induction ups arbitrary: ctx info dsk)
  case Nil
  then show ?case by simp
next
  case (Cons f ups)
  from Cons.prems obtain ctx1 info1 dsk1 where
    s: "ingest_file E d f (ctx, info) dsk = (Inr (ctx1, info1), dsk1)"
    and r: "ingest_files E d ups (ctx1, info1) dsk1 = (Inr (ctx', info'), dsk')"
    by (auto split: prod.splits sum.splits)
  note a = ingest_file_ok [OF s] and b = Cons.IH [OF r]
  from a b have "files info' = files info @ map filename (f # ups)"
    by simp
  moreover have "\<forall>k \<in> fst ` set ctx'. k \<in> fst ` set ctx \<or>
            (\<exists>g \<in> set (f # ups). \<exists>pre \<in> set name_prefixes. k = var_name pre (filename g))"
  proof
    fix k
    assume "k \<in> fst ` set ctx'"
    with b consider "k \<in> fst ` set ctx1"
      | "\<exists>g \<in> set ups. \<exists>pre \<in> set name_prefixes. k = var_name pre (filename g)"
      by blast
    then show "k \<in> fst ` set ctx \<or>
            (\<exists>g \<in> set (f # ups). \<exists>pre \<in> set name_prefixes. k = var_name pre (filename g))"
    proof cases
      case 1
      with a have "k \<in> fst ` set ctx \<or>
         (\<exists>pre \<in> set name_prefixes. k = var_name pre (filename f))"
        by blast
      then show ?thesis by auto
    next
      case 2
      then show ?thesis by auto
    qed
  qed
  ultimately show ?case by blast
qed


lemma context_keys:
  assumes "ingest_files E d ups ([], empty_file_info) dsk = (Inr (ctx, info), dsk')"
    and "k \<in> fst ` set ctx"
  shows "\<exists>f \<in> set ups. \<exists>pre \<in> set name_prefixes. k = var_name pre (filename f)"
proof -
  note h = ingest_files_ok [OF assms(1), THEN conjunct2, THEN bspec, OF assms(2)]
  then show ?thesis by simp
qed

section \<open>The execution sandbox\<close>



text \<open>
  C5. When the script runs to its end, the sandbox returns the value its local scope binds
  to \<^verbatim>\<open>result\<close>, and the fixed placeholder message, not a failure, when the scope has no
  such variable.
\<close>

theorem result_variable_or_placeholder:
  assumes "exec E code (sandbox_globals context) dsk = (Inr local_vars, dsk')"
  shows "(\<forall>v. map_of local_vars ''result'' = Some v \<longrightarrow>
            execute_analysis_code E code context dsk = (Inr v, dsk')) \<and>
         (''result'' \<notin> fst ` set local_vars \<longrightarrow>
            execute_analysis_code E code context dsk
              = (Inr (PyStr ''Code executed successfully but no result variable found''), dsk'))"
  using assms by (simp add: execute_analysis_code_def map_of_eq_None_iff [symmetric])

theorem result_variable_or_placeholder_witness:
  "execute_analysis_code demo_env ''result = 4'' [] [] = (Inr (PyInt 4), []) \<and>
   execute_analysis_code (demo_env\<lparr>exec := \<lambda>c g d. (Inr [(''x'', PyInt 1)], d)\<rparr>) ''x = 1'' [] []
     = (Inr (PyStr ''Code executed successfully but no result variable found''), [])"
proof -
  have a: "exec demo_env ''result = 4'' (sandbox_globals []) [] = (Inr [(''result'', PyInt 4)], [])"
    by (simp add: demo_env_def)
  have b: "exec (demo_env\<lparr>exec := \<lambda>c g d. (Inr [(''x'', PyInt 1)], d)\<rparr>) ''x = 1'' (sandbox_globals []) []
             = (Inr [(''x'', PyInt 1)], [])"
    by simp
  from result_variable_or_placeholder [OF a] result_variable_or_placeholder [OF b]
  show ?thesis by simp
qed

section \<open>PDF ingestion\<close>

lemma extract_pages_ok:
  "extract_pages (map Inr ts) acc = Inr (acc @ concat (map (\<lambda>t. t @ ''\<newline>'') ts))"
  by (induction ts arbitrary: acc) simp_all

lemma extract_pages_fail: "Inl e \<in> set pages \<Longrightarrow> \<exists>e'. extract_pages pages acc = Inl e'"
proof (induction pages arbitrary: acc)
  case Nil
  then show ?case by simp
next
  case (Cons p pages)
  then show ?case by (cases p) auto
qed

text \<open>
  C7 (as amended). For every PDF file, ingestion returns the text of every page, each
  followed by a newline (so the result ends with a newline when there is a page); when
  the reader or the extraction of any page fails, it returns the empty string, and the
  branch of the loop for a PDF never raises.
\<close>

theorem process_pdf_file_text:
  "(pdf_pages E b = Inr (map Inr ts) \<longrightarrow>
      process_pdf_file E b = concat (map (\<lambda>t. t @ ''\<newline>'') ts)) \<and>
   (pdf_pages E b = Inl e \<longrightarrow> process_pdf_file E b = []) \<and>
   (pdf_pages E b = Inr pages \<and> Inl e \<in> set pages \<longrightarrow> process_pdf_file E b = []) \<and>
   (\<not> endswith (filename f) ''.csv'' \<and> endswith (filename f) ''.pdf'' \<longrightarrow>
      (\<exists>st'. bind_file E p f st = Inr st'))"
proof -
  have a: "process_pdf_file E b = concat (map (\<lambda>t. t @ ''\<newline>'') ts)"
    if "pdf_pages E b = Inr (map Inr ts)"
    using that by (simp add: process_pdf_file_def extract_pages_ok)
  have b: "process_pdf_file E b = []" if "pdf_pages E b = Inl e"
    using that by (simp add: process_pdf_file_def)
  have c: "process_pdf_file E b = []" if "pdf_pages E b = Inr pages" "Inl e \<in> set pages"
    using that extract_pages_fail [OF that(2), of "[]"] by (auto simp: process_pdf_file_def)
  have d: "\<exists>st'. bind_file E p f st = Inr st'"
    if "\<not> endswith (filename f) ''.csv''" "endswith (filename f) ''.pdf''"
    using that by (cases st) (simp add: bind_file_def Let_def)
  from a b c d show ?thesis by blast
qed

theorem process_pdf_file_text_witness:
  "process_pdf_file demo_env ''%PDF'' = ''one\<newline>two\<newline>'' \<and>
   process_pdf_file demo_env ''junk'' = [] \<and>
   process_pdf_file (demo_env\<lparr>pdf_pages := \<lambda>b. Inr [Inr ''one'', Inl (PyException ''bad page'')]\<rparr>) ''%PDF'' = [] \<and>
   (\<exists>st'. bind_file demo_env ''/tmp/tmpab/r.pdf'' \<lparr>filename = ''r.pdf'', content = ''junk''\<rparr>
            ([], empty_file_info) = Inr st')"
proof -
  have a: "pdf_pages demo_env ''%PDF'' = Inr (map Inr [''one'', ''two''])"
    by (simp add: demo_env_def)
  have b: "pdf_pages demo_env ''junk'' = Inl (PyException ''EOF marker not found'')"
    by (simp add: demo_env_def)
  have c: "pdf_pages (demo_env\<lparr>pdf_pages := \<lambda>b. Inr [Inr ''one'', Inl (PyException ''bad page'')]\<rparr>) ''%PDF''
             = Inr [Inr ''one'', Inl (PyException ''bad page'')] \<and>
           Inl (PyException ''bad page'') \<in> set [Inr ''one'', Inl (PyException ''bad page'')]"
    by simp
  have d: "\<not> endswith (filename \<lparr>filename = ''r.pdf'', content = ''junk''\<rparr>) ''.csv'' \<and>
           endswith (filename \<lparr>filename = ''r.pdf'', content = ''junk''\<rparr>) ''.pdf''"
    by (simp add: endswith_def)
  from a process_pdf_file_text [of demo_env "''%PDF''" "[''one'', ''two'']"]
  have 1: "process_pdf_file demo_env ''%PDF'' = ''one\<newline>two\<newline>''" by simp
  from b process_pdf_file_text [of demo_env "''junk''" "[]" "PyException ''EOF marker not found''" "[]"]
  have 2: "process_pdf_file demo_env ''junk'' = []" by simp
  from c process_pdf_file_text [of "demo_env\<lparr>pdf_pages := \<lambda>b. Inr [Inr ''one'', Inl (PyException ''bad page'')]\<rparr>"
      "''%PDF''" "[]" "PyException ''bad page''" "[Inr ''one'', Inl (PyException ''bad page'')]"]
  have 3: "process_pdf_file (demo_env\<lparr>pdf_pages := \<lambda>b. Inr [Inr ''one'', Inl (PyException ''bad page'')]\<rparr>) ''%PDF'' = []"
    by simp
  from d process_pdf_file_text [of demo_env "[]" "[]" "PyException []" "[]"
      "\<lparr>filename = ''r.pdf'', content = ''junk''\<rparr>" "''/tmp/tmpab/r.pdf''" "([], empty_file_info)"]
  have 4: "\<exists>st'. bind_file demo_env ''/tmp/tmpab/r.pdf'' \<lparr>filename = ''r.pdf'', content = ''junk''\<rparr>
            ([], empty_file_info) = Inr st'"
    by simp
  from 1 2 3 4 show ?thesis by simp
qed

text \<open>
  C7 as stated fails: for two pages the text is not the pages joined by a newline
  separator, it has a newline behind the last page as well.
\<close>

theorem process_pdf_file_counterexample:
  "pdf_pages demo_env ''%PDF'' = Inr [Inr ''one'', Inr ''two''] \<and>
   join_newline [''one'', ''two''] = ''one\<newline>two'' \<and>
   process_pdf_file demo_env ''%PDF'' = ''one\<newline>two\<newline>'' \<and>
   process_pdf_file demo_env ''%PDF'' \<noteq> join_newline [''one'', ''two'']"
  by (simp add: process_pdf_file_def demo_env_def)

section \<open>The names of the file context\<close>

lemma var_name_chars:
  "var_name pre fn = pre @ map (\<lambda>c. if c = CHR ''.'' \<or> c = CHR ''-'' then CHR ''_'' else c) fn"
  by (simp add: var_name_def replace_def)

text \<open>
  C8 (as amended). Every name the ingestion loop binds in the execution context is a
  function of an uploaded filename: one of the prefixes \<^verbatim>\<open>df_\<close>, \<^verbatim>\<open>text_\<close>, \<^verbatim>\<open>img_path_\<close>
  followed by the filename with every \<^verbatim>\<open>.\<close> and every \<^verbatim>\<open>-\<close> replaced by \<^verbatim>\<open>_\<close> and every other
  character kept. Such a name is never one of the names of the fixed namespace
  (\<^verbatim>\<open>__builtins__\<close>, the library handles and the two helpers).
\<close>

theorem context_names_derived:
  assumes "ingest_files E d ups ([], empty_file_info) dsk = (Inr (ctx, info), dsk')"
    and "k \<in> fst ` set ctx"
  shows "(\<exists>f \<in> set ups. \<exists>pre \<in> set name_prefixes.
            k = pre @ map (\<lambda>c. if c = CHR ''.'' \<or> c = CHR ''-'' then CHR ''_'' else c) (filename f)) \<and>
         k \<notin> fst ` set safe_globals \<and>
         fst ` set safe_globals =
           {''__builtins__'', ''pd'', ''np'', ''plt'', ''go'', ''px'', ''requests'', ''BeautifulSoup'',
            ''base64'', ''BytesIO'', ''create_plot_base64'', ''scrape_wikipedia_table''}"
proof -
  from context_keys [OF assms] obtain f pre where
    f: "f \<in> set ups" and p: "pre \<in> set name_prefixes" and k: "k = var_name pre (filename f)"
    by (elim bexE)
  from f p k have "\<exists>f \<in> set ups. \<exists>pre \<in> set name_prefixes.
            k = pre @ map (\<lambda>c. if c = CHR ''.'' \<or> c = CHR ''-'' then CHR ''_'' else c) (filename f)"
    unfolding var_name_chars by (intro bexI) 
  moreover from p k have "k \<notin> fst ` set safe_globals"
    by (simp only: var_name_not_reserved not_False_eq_True)
  moreover have "fst ` set safe_globals =
           {''__builtins__'', ''pd'', ''np'', ''plt'', ''go'', ''px'', ''requests'', ''BeautifulSoup'',
            ''base64'', ''BytesIO'', ''create_plot_base64'', ''scrape_wikipedia_table''}"
    by (simp add: safe_globals_def)
  ultimately show ?thesis by (intro conjI)
qed

theorem context_names_derived_witness:
  "ingest_files demo_env ''/tmp/tmpab'' [\<lparr>filename = ''my-data.csv'', content = ''a,b\<newline>1,2\<newline>''\<rparr>]
       ([], empty_file_info) []
     = (Inr ([(''df_my_data_csv'', PyFrame \<lparr>shape = (1, 2), columns = [''a'', ''b'']\<rparr>)],
             \<lparr>files = [''my-data.csv''],
                dataframes = [\<lparr>df_name = ''df_my_data_csv'', df_shape = (1, 2), df_columns = [''a'', ''b''],
                               df_filename = ''my-data.csv''\<rparr>],
                text_content = [], images = []\<rparr>),
        [''/tmp/tmpab/my-data.csv'']) \<and>
   ''df_my_data_csv'' \<notin> fst ` set safe_globals"
proof -
  have h: "ingest_files demo_env ''/tmp/tmpab'' [\<lparr>filename = ''my-data.csv'', content = ''a,b\<newline>1,2\<newline>''\<rparr>]
       ([], empty_file_info) []
     = (Inr ([(''df_my_data_csv'', PyFrame \<lparr>shape = (1, 2), columns = [''a'', ''b'']\<rparr>)],
             \<lparr>files = [''my-data.csv''],
                dataframes = [\<lparr>df_name = ''df_my_data_csv'', df_shape = (1, 2), df_columns = [''a'', ''b''],
                               df_filename = ''my-data.csv''\<rparr>],
                text_content = [], images = []\<rparr>),
        [''/tmp/tmpab/my-data.csv''])"
    by (simp add: ingest_file_def bind_file_def demo_env_def endswith_def process_csv_file_def
          var_name_def replace_def empty_file_info_def Let_def)
  have k: "''df_my_data_csv'' \<in> fst ` set [(''df_my_data_csv'', PyFrame \<lparr>shape = (1, 2), columns = [''a'', ''b'']\<rparr>)]"
    by simp
  from context_names_derived [OF h k] have "''df_my_data_csv'' \<notin> fst ` set safe_globals"
    by (elim conjE)
  with h show ?thesis by (rule conjI)
qed

text \<open>
  C8 as stated fails: only the two characters are replaced. The upload \<^verbatim>\<open>a b.csv\<close> is
  bound under a name that still holds its space, which is not alphanumeric.
\<close>

theorem context_names_counterexample:
  "fst (ingest_files demo_env ''/tmp/tmpab'' [\<lparr>filename = ''a b.csv'', content = ''a,b\<newline>1,2\<newline>''\<rparr>]
          ([], empty_file_info) [])
     = Inr ([(''df_a b_csv'', PyFrame \<lparr>shape = (1, 2), columns = [''a'', ''b'']\<rparr>)],
            \<lparr>files = [''a b.csv''],
               dataframes = [\<lparr>df_name = ''df_a b_csv'', df_shape = (1, 2), df_columns = [''a'', ''b''],
                              df_filename = ''a b.csv''\<rparr>],
               text_content = [], images = []\<rparr>) \<and>
   CHR '' '' \<in> set ''df_a b_csv'' \<and> \<not> alphanumeric (CHR '' '')"
  by (simp add: ingest_file_def bind_file_def demo_env_def endswith_def process_csv_file_def
        var_name_def replace_def empty_file_info_def Let_def alphanumeric_def)

section \<open>The handler\<close>

text \<open>The definitions a run of the handler in the concrete environment unfolds.\<close>

lemmas handler_defs =
  analyze_data_def try_block_def workspace_block_def ingest_file_def bind_file_def
  generate_analysis_code_def execute_analysis_code_def extract_code_def process_csv_file_def
  process_pdf_file_def process_image_file_def str_exn_def rmtree_def in_tree_def startswith_def endswith_def
  var_name_def replace_def empty_file_info_def getitem_def strip_def py_isspace_def fence_def
  fence_python_def lower_def lower_char_def http_status_def demo_env_def demo_world_def Let_def

text \<open>
  The ways a request ends: with an exception and an unchanged request log, or completed,
  with one record appended behind the script's result.
\<close>

lemma workspace_block_cases:
  assumes "workspace_block E tid qt d ups w = (res, w')"
  shows "(\<exists>e. res = Inl e \<and> analysis_requests w' = analysis_requests w) \<or>
         (\<exists>ctx info d1 code v d2.
            ingest_files E d ups ([], empty_file_info) (disk w) = (Inr (ctx, info), d1) \<and>
            generate_analysis_code E qt info = Inr code \<and>
            execute_analysis_code E code ctx d1 = (Inr v, d2) \<and>
            res = Inr \<lparr>task_id = tid, result = v, execution_time = end_clock E - start_clock E,
                       status = ''completed'', error = None\<rparr> \<and>
            analysis_requests w' = analysis_requests w @
              [\<lparr>req_task_id = tid, req_timestamp = utcnow E, req_question = qt,
                files_processed = files info, req_status = ''completed''\<rparr>])"
  using assms
  by (auto simp: workspace_block_def Let_def split: prod.splits sum.splits option.splits)

lemma try_block_cases:
  assumes "try_block E tid q ups w = (res, w')"
  shows "(\<exists>e. res = Inl e \<and> analysis_requests w' = analysis_requests w) \<or>
         (\<exists>qt d ctx info d1 code v d2.
            decode_utf8 E q = Inr qt \<and> mkdtemp E = Inr d \<and>
            ingest_files E d ups ([], empty_file_info) (d # disk w) = (Inr (ctx, info), d1) \<and>
            generate_analysis_code E qt info = Inr code \<and>
            execute_analysis_code E code ctx d1 = (Inr v, d2) \<and>
            res = Inr \<lparr>task_id = tid, result = v, execution_time = end_clock E - start_clock E,
                       status = ''completed'', error = None\<rparr> \<and>
            analysis_requests w' = analysis_requests w @
              [\<lparr>req_task_id = tid, req_timestamp = utcnow E, req_question = qt,
                files_processed = files info, req_status = ''completed''\<rparr>])"
proof (cases "decode_utf8 E q")
  case (Inl e)
  with assms show ?thesis by (auto simp: try_block_def)
next
  case qt: (Inr qt)
  show ?thesis
  proof (cases "mkdtemp E")
    case (Inl e)
    with qt assms show ?thesis by (auto simp: try_block_def)
  next
    case d: (Inr d)
    obtain r1 w1 where b: "workspace_block E tid qt d ups (w\<lparr>disk := d # disk w\<rparr>) = (r1, w1)"
      by (cases "workspace_block E tid qt d ups (w\<lparr>disk := d # disk w\<rparr>)")
    with qt d assms have res: "res = r1" and w': "w' = w1\<lparr>disk := rmtree E d (disk w1)\<rparr>"
      by (simp_all add: try_block_def)
    from workspace_block_cases [OF b] qt d res w' show ?thesis
      by (elim disjE exE conjE) (simp, force)
  qed
qed

lemma analyze_data_cases:
  assumes "analyze_data E q ups w = (res, w')"
  shows "(\<exists>e. res = Inr \<lparr>task_id = uuid4 E, result = PyNone,
                         execution_time = end_clock E - start_clock E,
                         status = ''error'', error = Some e\<rparr> \<and>
              analysis_requests w' = analysis_requests w) \<or>
         (\<exists>qt d ctx info d1 code v d2.
            decode_utf8 E q = Inr qt \<and> mkdtemp E = Inr d \<and>
            ingest_files E d ups ([], empty_file_info) (d # disk w) = (Inr (ctx, info), d1) \<and>
            generate_analysis_code E qt info = Inr code \<and>
            execute_analysis_code E code ctx d1 = (Inr v, d2) \<and>
            res = Inr \<lparr>task_id = uuid4 E, result = v, execution_time = end_clock E - start_clock E,
                       status = ''completed'', error = None\<rparr> \<and>
            analysis_requests w' = analysis_requests w @
              [\<lparr>req_task_id = uuid4 E, req_timestamp = utcnow E, req_question = qt,
                files_processed = files info, req_status = ''completed''\<rparr>])"
proof -
  obtain r1 w1 where t: "try_block E (uuid4 E) q ups w = (r1, w1)"
    by (cases "try_block E (uuid4 E) q ups w")
  show ?thesis
  proof (cases r1)
    case (Inl e)
    with t assms have "res = Inr \<lparr>task_id = uuid4 E, result = PyNone,
                         execution_time = end_clock E - start_clock E,
                         status = ''error'', error = Some (str_exn E e)\<rparr>" and "w' = w1"
      by (simp_all add: analyze_data_def Let_def)
    moreover from try_block_cases [OF t] Inl have "analysis_requests w1 = analysis_requests w"
      by auto
    ultimately show ?thesis by simp
  next
    case (Inr r)
    with t assms have "res = r1" and "w' = w1"
      by (simp_all add: analyze_data_def Let_def)
    with try_block_cases [OF t] Inr show ?thesis
      by (elim disjE exE conjE) (simp, force)
  qed
qed

text \<open>Three runs: a completed request, a failing script, a malformed CSV.\<close>

lemma demo_completed:
  "analyze_data demo_env ''q''
     [\<lparr>filename = ''data.csv'', content = ''a,b\<newline>1,2\<newline>''\<rparr>, \<lparr>filename = ''blob.bin'', content = [CHR 0xFF]\<rparr>]
     demo_world
   = (Inr \<lparr>task_id = ''task-1'', result = PyInt 4, execution_time = 2, status = ''completed'',
           error = None\<rparr>,
      \<lparr>disk = [''/tmp''],
       analysis_requests = [\<lparr>req_task_id = ''task-1'', req_timestamp = 0, req_question = ''q'',
                             files_processed = [''data.csv'', ''blob.bin''],
                             req_status = ''completed''\<rparr>]\<rparr>)"
  by (simp add: handler_defs)

lemma demo_exec_failure:
  "analyze_data (demo_env\<lparr>send_message := \<lambda>s u. Inr ''boom''\<rparr>) ''q'' [] demo_world
   = (Inr \<lparr>task_id = ''task-1'', result = PyNone, execution_time = 2, status = ''error'',
           error = Some ''500: Code execution error: invalid syntax''\<rparr>,
      \<lparr>disk = [''/tmp''], analysis_requests = []\<rparr>)"
  by (simp add: handler_defs)

lemma demo_bad_csv:
  "analyze_data demo_env ''q'' [\<lparr>filename = ''bad.csv'', content = ''x''\<rparr>] demo_world
   = (Inr \<lparr>task_id = ''task-1'', result = PyNone, execution_time = 2, status = ''error'',
           error = Some ''400: Error processing CSV: Error tokenizing data''\<rparr>,
      \<lparr>disk = [''/tmp''], analysis_requests = []\<rparr>)"
  by (simp add: handler_defs)

text \<open>
  C2 (as amended). Every request returns a result whose status is \<^verbatim>\<open>completed\<close> or
  \<^verbatim>\<open>error\<close>. A completed request has written exactly one record to the request log, with
  its task identifier and the status \<^verbatim>\<open>completed\<close>, once the script's result was known; a
  request that ends with the status \<^verbatim>\<open>error\<close> has written none.
\<close>

theorem log_record_iff_completed:
  assumes "analyze_data E q ups w = (res, w')"
  shows "\<exists>r. res = Inr r \<and>
           ((status r = ''completed'' \<and>
             (\<exists>req. analysis_requests w' = analysis_requests w @ [req] \<and>
                    req_task_id req = task_id r \<and> req_status req = ''completed'')) \<or>
            (status r = ''error'' \<and> analysis_requests w' = analysis_requests w))"
  using analyze_data_cases [OF assms] by (elim disjE exE conjE) auto

theorem log_record_iff_completed_witness:
  "\<exists>r. Inr \<lparr>task_id = ''task-1'', result = PyInt 4, execution_time = 2, status = ''completed'',
              error = None\<rparr> = (Inr r :: exn + analysis_result) \<and>
       ((status r = ''completed'' \<and>
         (\<exists>req. analysis_requests
                  \<lparr>disk = [''/tmp''],
                   analysis_requests = [\<lparr>req_task_id = ''task-1'', req_timestamp = 0, req_question = ''q'',
                             files_processed = [''data.csv'', ''blob.bin''],
                             req_status = ''completed''\<rparr>]\<rparr>
                  = analysis_requests demo_world @ [req] \<and>
                req_task_id req = task_id r \<and> req_status req = ''completed'')) \<or>
        (status r = ''error'' \<and>
         analysis_requests
           \<lparr>disk = [''/tmp''],
            analysis_requests = [\<lparr>req_task_id = ''task-1'', req_timestamp = 0, req_question = ''q'',
                             files_processed = [''data.csv'', ''blob.bin''],
                             req_status = ''completed''\<rparr>]\<rparr>
           = analysis_requests demo_world))"
  by (rule log_record_iff_completed [OF demo_completed])

text \<open>
  C2 as stated fails: a request whose script raises ends with the status \<^verbatim>\<open>error\<close> and
  leaves the request log as it was, empty here.
\<close>

theorem log_record_counterexample:
  "analyze_data (demo_env\<lparr>send_message := \<lambda>s u. Inr ''boom''\<rparr>) ''q'' [] demo_world
   = (Inr \<lparr>task_id = ''task-1'', result = PyNone, execution_time = 2, status = ''error'',
           error = Some ''500: Code execution error: invalid syntax''\<rparr>,
      \<lparr>disk = [''/tmp''], analysis_requests = []\<rparr>) \<and>
   analysis_requests demo_world = []"
  using demo_exec_failure by (simp add: demo_world_def)

text \<open>
  C3. When the interpreter raises an exception \<open>e\<close> while it runs the generated code, the
  handler returns (the response has status 200) a result whose status is \<^verbatim>\<open>error\<close>, whose
  result is \<^verbatim>\<open>None\<close>, whose error is the string of the \<open>HTTPException\<close> built from
  \<^verbatim>\<open>str(e)\<close>, and whose execution time is the clock at the handler's \<^verbatim>\<open>except\<close> clause
  minus the clock at its entry.
\<close>

theorem sandbox_exception_enveloped:
  assumes "decode_utf8 E q = Inr qt"
    and "mkdtemp E = Inr d"
    and "ingest_files E d ups ([], empty_file_info) (d # disk w) = (Inr (ctx, info), d1)"
    and "generate_analysis_code E qt info = Inr code"
    and "exec E code (sandbox_globals ctx) d1 = (Inl e, d2)"
  shows "fst (analyze_data E q ups w)
           = Inr \<lparr>task_id = uuid4 E, result = PyNone,
                  execution_time = end_clock E - start_clock E, status = ''error'',
                  error = Some (str_exn E (HTTPException 500
                                  (''Code execution error: '' @ str_exn E e)))\<rparr> \<and>
         http_status (fst (analyze_data E q ups w)) = 200"
  using assms
  by (simp add: analyze_data_def try_block_def workspace_block_def execute_analysis_code_def
        Let_def http_status_def)

theorem sandbox_exception_enveloped_witness:
  "fst (analyze_data (demo_env\<lparr>send_message := \<lambda>s u. Inr ''boom''\<rparr>) ''q'' [] demo_world)
     = Inr \<lparr>task_id = ''task-1'', result = PyNone, execution_time = 2, status = ''error'',
            error = Some ''500: Code execution error: invalid syntax''\<rparr> \<and>
   http_status (fst (analyze_data (demo_env\<lparr>send_message := \<lambda>s u. Inr ''boom''\<rparr>) ''q'' [] demo_world))
     = 200"
proof -
  let ?E = "demo_env\<lparr>send_message := \<lambda>s u. Inr ''boom''\<rparr>"
  have a: "decode_utf8 ?E ''q'' = Inr ''q''" and b: "mkdtemp ?E = Inr ''/tmp/tmpab''"
    by (simp_all add: demo_env_def)
  have c: "ingest_files ?E ''/tmp/tmpab'' [] ([], empty_file_info) (''/tmp/tmpab'' # disk demo_world)
             = (Inr ([], empty_file_info), [''/tmp/tmpab'', ''/tmp''])"
    by (simp add: demo_world_def)
  have d: "generate_analysis_code ?E ''q'' empty_file_info = Inr ''boom''"
    by (simp add: handler_defs)
  have e: "exec ?E ''boom'' (sandbox_globals []) [''/tmp/tmpab'', ''/tmp'']
             = (Inl (PyException ''invalid syntax''), [''/tmp/tmpab'', ''/tmp''])"
    by (simp add: demo_env_def)
  have v: "uuid4 ?E = ''task-1''" "end_clock ?E - start_clock ?E = 2"
    "str_exn ?E (HTTPException 500 (''Code execution error: '' @ str_exn ?E (PyException ''invalid syntax'')))
       = ''500: Code execution error: invalid syntax''"
    by (simp_all add: demo_env_def str_exn_def)
  from sandbox_exception_enveloped [OF a b c d e, unfolded v] show ?thesis .
qed

section \<open>The temporary workspace\<close>

lemma analyze_data_world: "snd (analyze_data E q ups w) = snd (try_block E (uuid4 E) q ups w)"
  by (simp add: analyze_data_def Let_def split: prod.splits sum.splits)

lemma startswith_append: "startswith s pre \<longleftrightarrow> (\<exists>r. s = pre @ r)"
proof
  assume "startswith s pre"
  then have "s = pre @ drop (length pre) s"
    by (metis append_take_drop_id startswith_def)
  then show "\<exists>r. s = pre @ r" ..
next
  assume "\<exists>r. s = pre @ r"
  then show "startswith s pre" by (auto simp: startswith_def)
qed

lemma in_tree_trans: "in_tree d p \<Longrightarrow> in_tree p q \<Longrightarrow> in_tree d q"
proof -
  assume dp: "in_tree d p" and pq: "in_tree p q"
  show ?thesis
  proof (cases "p = d \<or> q = p")
    case True
    with dp pq show ?thesis by auto
  next
    case False
    with dp pq obtain r1 r2 where "p = (d @ ''/'') @ r1" and "q = (p @ ''/'') @ r2"
      unfolding in_tree_def startswith_append by blast
    then have "q = (d @ ''/'') @ (r1 @ ''/'' @ r2)"
      by simp
    then have "startswith q (d @ ''/'')"
      unfolding startswith_append by (rule exI)
    then show ?thesis by (simp add: in_tree_def)
  qed
qed

lemma set_rmtree:
  "set (rmtree E d dsk) =
     {p \<in> set dsk. \<not> in_tree d p \<or> (\<exists>q \<in> set dsk. in_tree p q \<and> \<not> removable E q)}"
  by (simp add: rmtree_def list_ex_iff)

lemma rmtree_all_removable:
  assumes "\<forall>p \<in> set dsk. in_tree d p \<longrightarrow> removable E p"
    and "p \<in> set (rmtree E d dsk)"
  shows "\<not> in_tree d p"
proof
  assume t: "in_tree d p"
  with assms(2) obtain q where q: "q \<in> set dsk" "in_tree p q" "\<not> removable E q"
    unfolding set_rmtree by blast
  from in_tree_trans [OF t q(2)] q(1) assms(1) have "removable E q" by blast
  with q(3) show False by contradiction
qed

text \<open>Nothing but the removal looks at what the file system lets go.\<close>

lemma str_exn_removable: "str_exn (E\<lparr>removable := rm\<rparr>) e = str_exn E e"
  by (cases e) (simp_all add: str_exn_def)

lemma bind_file_removable: "bind_file (E\<lparr>removable := rm\<rparr>) p f st = bind_file E p f st"
  by (cases st)
    (simp add: bind_file_def process_csv_file_def process_pdf_file_def process_image_file_def
       str_exn_removable split: sum.splits)

lemma ingest_files_removable:
  "ingest_files (E\<lparr>removable := rm\<rparr>) d ups st dsk = ingest_files E d ups st dsk"
proof (induction ups arbitrary: st dsk)
  case Nil
  show ?case by simp
next
  case (Cons f ups)
  have "ingest_file (E\<lparr>removable := rm\<rparr>) d f st dsk = ingest_file E d f st dsk"
    by (cases st) (simp add: ingest_file_def bind_file_removable Let_def split: option.splits)
  with Cons.IH show ?case by (simp split: prod.splits sum.splits)
qed

lemma generate_analysis_code_removable:
  "generate_analysis_code (E\<lparr>removable := rm\<rparr>) qt info = generate_analysis_code E qt info"
  by (simp add: generate_analysis_code_def str_exn_removable split: sum.splits)

lemma execute_analysis_code_removable:
  "execute_analysis_code (E\<lparr>removable := rm\<rparr>) code ctx dsk = execute_analysis_code E code ctx dsk"
  by (simp add: execute_analysis_code_def str_exn_removable split: prod.splits sum.splits)

lemma workspace_block_removable:
  "workspace_block (E\<lparr>removable := rm\<rparr>) tid qt d ups w = workspace_block E tid qt d ups w"
  by (simp add: workspace_block_def ingest_files_removable generate_analysis_code_removable
        execute_analysis_code_removable Let_def split: prod.splits sum.splits option.splits)

lemma try_block_result:
  "fst (try_block (E\<lparr>removable := rm\<rparr>) tid q ups w) = fst (try_block E tid q ups w)"
  by (simp add: try_block_def workspace_block_removable split: sum.splits prod.splits)

lemma analyze_data_result:
  "fst (analyze_data E q ups w) =
     (case fst (try_block E (uuid4 E) q ups w) of
        Inr r \<Rightarrow> Inr r
      | Inl e \<Rightarrow> Inr \<lparr>task_id = uuid4 E, result = PyNone,
                        execution_time = end_clock E - start_clock E, status = ''error'',
                        error = Some (str_exn E e)\<rparr>)"
  by (simp add: analyze_data_def Let_def split: prod.splits sum.splits)

text \<open>
  C9 (as amended). When a request has created its temporary directory \<open>d\<close>, the handler
  calls the recursive removal of \<open>d\<close> once, at the end, on the disk the inner block left,
  whether that block returned or raised; the removal's failures are ignored, so the
  response is the same whatever the file system lets go. The disk the handler leaves is
  the disk that call leaves: when every path of the tree can be removed, neither \<open>d\<close> nor
  any path below it is on the disk any more.
\<close>

theorem workspace_removal:
  assumes "decode_utf8 E q = Inr qt"
    and "mkdtemp E = Inr d"
  shows "disk (snd (analyze_data E q ups w))
           = rmtree E d (disk (snd (workspace_block E (uuid4 E) qt d ups (w\<lparr>disk := d # disk w\<rparr>)))) \<and>
         ((\<forall>p \<in> set (disk (snd (workspace_block E (uuid4 E) qt d ups (w\<lparr>disk := d # disk w\<rparr>)))).
              in_tree d p \<longrightarrow> removable E p) \<longrightarrow>
          (\<forall>p \<in> set (disk (snd (analyze_data E q ups w))). \<not> in_tree d p)) \<and>
         fst (analyze_data (E\<lparr>removable := rm\<rparr>) q ups w) = fst (analyze_data E q ups w)"
proof (intro conjI)
  show left: "disk (snd (analyze_data E q ups w))
           = rmtree E d (disk (snd (workspace_block E (uuid4 E) qt d ups (w\<lparr>disk := d # disk w\<rparr>))))"
    using assms by (simp add: analyze_data_world try_block_def split: prod.splits)
  show "(\<forall>p \<in> set (disk (snd (workspace_block E (uuid4 E) qt d ups (w\<lparr>disk := d # disk w\<rparr>)))).
              in_tree d p \<longrightarrow> removable E p) \<longrightarrow>
          (\<forall>p \<in> set (disk (snd (analyze_data E q ups w))). \<not> in_tree d p)"
    unfolding left using rmtree_all_removable by blast
  show "fst (analyze_data (E\<lparr>removable := rm\<rparr>) q ups w) = fst (analyze_data E q ups w)"
    by (simp add: analyze_data_result try_block_result str_exn_removable split: sum.splits)
qed

theorem workspace_removal_witness:
  "disk (snd (analyze_data demo_env ''q''
       [\<lparr>filename = ''data.csv'', content = ''a,b\<newline>1,2\<newline>''\<rparr>, \<lparr>filename = ''blob.bin'', content = [CHR 0xFF]\<rparr>]
       demo_world)) = [''/tmp''] \<and>
   \<not> in_tree ''/tmp/tmpab'' ''/tmp''"
proof -
  let ?ups = "[\<lparr>filename = ''data.csv'', content = ''a,b\<newline>1,2\<newline>''\<rparr>,
               \<lparr>filename = ''blob.bin'', content = [CHR 0xFF]\<rparr>]"
  let ?left = "disk (snd (workspace_block demo_env (uuid4 demo_env) ''q'' ''/tmp/tmpab'' ?ups
                           (demo_world\<lparr>disk := ''/tmp/tmpab'' # disk demo_world\<rparr>)))"
  have a: "decode_utf8 demo_env ''q'' = Inr ''q''" and b: "mkdtemp demo_env = Inr ''/tmp/tmpab''"
    by (simp_all add: demo_env_def)
  have c: "rmtree demo_env ''/tmp/tmpab'' ?left = [''/tmp'']"
    by (simp add: handler_defs)
  have r: "\<forall>p \<in> set ?left. in_tree ''/tmp/tmpab'' p \<longrightarrow> removable demo_env p"
    by (simp add: demo_env_def)
  note t = workspace_removal [OF a b, of ?ups demo_world]
  from t [THEN conjunct1] c
  have 1: "disk (snd (analyze_data demo_env ''q'' ?ups demo_world)) = [''/tmp'']"
    by (rule trans)
  from t [THEN conjunct2, THEN conjunct1] r
  have "\<forall>p \<in> set (disk (snd (analyze_data demo_env ''q'' ?ups demo_world))). \<not> in_tree ''/tmp/tmpab'' p"
    by (rule mp)
  with 1 have 2: "\<not> in_tree ''/tmp/tmpab'' ''/tmp''"
    by simp
  from 1 2 show ?thesis by (rule conjI)
qed

text \<open>
  C9 as stated fails: where the file system does not let the saved upload go, the request
  completes, and the file and the temporary directory are still on the disk.
\<close>

theorem workspace_removal_counterexample:
  "mkdtemp (demo_env\<lparr>removable := \<lambda>p. p \<noteq> ''/tmp/tmpab/data.csv''\<rparr>) = Inr ''/tmp/tmpab'' \<and>
   analyze_data (demo_env\<lparr>removable := \<lambda>p. p \<noteq> ''/tmp/tmpab/data.csv''\<rparr>) ''q''
       [\<lparr>filename = ''data.csv'', content = ''a,b\<newline>1,2\<newline>''\<rparr>] demo_world
     = (Inr \<lparr>task_id = ''task-1'', result = PyInt 4, execution_time = 2, status = ''completed'',
             error = None\<rparr>,
        \<lparr>disk = [''/tmp/tmpab/data.csv'', ''/tmp/tmpab'', ''/tmp''],
         analysis_requests = [\<lparr>req_task_id = ''task-1'', req_timestamp = 0, req_question = ''q'',
                               files_processed = [''data.csv''], req_status = ''completed''\<rparr>]\<rparr>) \<and>
   ''/tmp/tmpab'' \<in> set [''/tmp/tmpab/data.csv'', ''/tmp/tmpab'', ''/tmp'']"
  by (simp add: handler_defs)

section \<open>Malformed CSV files and skipped files\<close>

lemma bind_file_csv_ok:
  "bind_file E p f st = Inr st' \<Longrightarrow> endswith (filename f) ''.csv'' \<Longrightarrow>
   \<exists>df. read_csv E (content f) = Inr df"
  by (cases st) (auto simp: bind_file_def process_csv_file_def split: sum.splits)

lemma ingest_file_csv_ok:
  "ingest_file E d f st dsk = (Inr st', dsk') \<Longrightarrow> endswith (filename f) ''.csv'' \<Longrightarrow>
   \<exists>df. read_csv E (content f) = Inr df"
  by (auto simp: ingest_file_def Let_def split: option.splits sum.splits prod.splits
        dest: bind_file_csv_ok)

lemma ingest_files_csv_ok:
  "ingest_files E d ups st dsk = (Inr st', dsk') \<Longrightarrow> f \<in> set ups \<Longrightarrow>
   endswith (filename f) ''.csv'' \<Longrightarrow> \<exists>df. read_csv E (content f) = Inr df"
proof (induction ups arbitrary: st dsk)
  case Nil
  then show ?case by simp
next
  case (Cons g ups)
  from Cons.prems(1) obtain st1 dsk1 where
    s: "ingest_file E d g st dsk = (Inr st1, dsk1)"
    and r: "ingest_files E d ups st1 dsk1 = (Inr st', dsk')"
    by (auto split: prod.splits sum.splits)
  show ?case
  proof (cases "f = g")
    case True
    with s Cons.prems(3) show ?thesis by (simp add: ingest_file_csv_ok)
  next
    case False
    with Cons.prems(2) have "f \<in> set ups" by simp
    with Cons.IH [OF r] Cons.prems(3) show ?thesis by simp
  qed
qed

text \<open>
  C1 (as amended). For every request that contains a malformed CSV file, processing that
  file raises an \<open>HTTPException\<close> with status code 400, the request does not complete, and
  the caller receives a response of status 200 whose result has the status \<^verbatim>\<open>error\<close>, the
  result \<^verbatim>\<open>None\<close> and an error message; no record is written to the request log.
\<close>

theorem malformed_csv_enveloped:
  assumes "f \<in> set ups"
    and "endswith (filename f) ''.csv''"
    and "read_csv E (content f) = Inl e"
    and "analyze_data E q ups w = (res, w')"
  shows "bind_file E p f st = Inl (HTTPException 400 (''Error processing CSV: '' @ str_exn E e)) \<and>
         (\<exists>r. res = Inr r \<and> http_status res = 200 \<and> status r = ''error'' \<and> result r = PyNone \<and>
              error r \<noteq> None \<and> analysis_requests w' = analysis_requests w)"
proof
  from assms(2,3) show "bind_file E p f st = Inl (HTTPException 400 (''Error processing CSV: '' @ str_exn E e))"
    by (cases st) (simp add: bind_file_def process_csv_file_def)
next
  from analyze_data_cases [OF assms(4)]
  show "\<exists>r. res = Inr r \<and> http_status res = 200 \<and> status r = ''error'' \<and> result r = PyNone \<and>
              error r \<noteq> None \<and> analysis_requests w' = analysis_requests w"
  proof (elim disjE exE conjE)
    fix m
    assume "res = Inr \<lparr>task_id = uuid4 E, result = PyNone,
                         execution_time = end_clock E - start_clock E,
                         status = ''error'', error = Some m\<rparr>"
      and "analysis_requests w' = analysis_requests w"
    then show ?thesis by (simp add: http_status_def)
  next
    fix qt d ctx info d1 code v d2
    assume "ingest_files E d ups ([], empty_file_info) (d # disk w) = (Inr (ctx, info), d1)"
    from ingest_files_csv_ok [OF this assms(1,2)] assms(3) show ?thesis by simp
  qed
qed

theorem malformed_csv_enveloped_witness:
  "bind_file demo_env ''/tmp/tmpab/bad.csv'' \<lparr>filename = ''bad.csv'', content = ''x''\<rparr> ([], empty_file_info)
     = Inl (HTTPException 400 (''Error processing CSV: '' @ str_exn demo_env (PyException ''Error tokenizing data''))) \<and>
   (\<exists>r. Inr \<lparr>task_id = ''task-1'', result = PyNone, execution_time = 2, status = ''error'',
               error = Some ''400: Error processing CSV: Error tokenizing data''\<rparr>
          = (Inr r :: exn + analysis_result) \<and>
        http_status (Inr \<lparr>task_id = ''task-1'', result = PyNone, execution_time = 2, status = ''error'',
               error = Some ''400: Error processing CSV: Error tokenizing data''\<rparr>) = 200 \<and>
        status r = ''error'' \<and> result r = PyNone \<and> error r \<noteq> None \<and>
        analysis_requests \<lparr>disk = [''/tmp''], analysis_requests = []\<rparr> = analysis_requests demo_world)"
proof -
  have a: "\<lparr>filename = ''bad.csv'', content = ''x''\<rparr> \<in> set [\<lparr>filename = ''bad.csv'', content = ''x''\<rparr>]"
    by simp
  have b: "endswith (filename \<lparr>filename = ''bad.csv'', content = ''x''\<rparr>) ''.csv''"
    by (simp add: endswith_def)
  have c: "read_csv demo_env (content \<lparr>filename = ''bad.csv'', content = ''x''\<rparr>)
             = Inl (PyException ''Error tokenizing data'')"
    by (simp add: demo_env_def)
  from malformed_csv_enveloped [OF a b c demo_bad_csv, of "''/tmp/tmpab/bad.csv''" "([], empty_file_info)"]
  show ?thesis .
qed

text \<open>
  C1 as stated fails: the exception of status 400 never reaches the caller. The handler's
  \<^verbatim>\<open>except Exception\<close> clause catches it and returns a result, so the response has
  status 200.
\<close>

theorem malformed_csv_counterexample:
  "read_csv demo_env ''x'' = Inl (PyException ''Error tokenizing data'') \<and>
   analyze_data demo_env ''q'' [\<lparr>filename = ''bad.csv'', content = ''x''\<rparr>] demo_world
     = (Inr \<lparr>task_id = ''task-1'', result = PyNone, execution_time = 2, status = ''error'',
             error = Some ''400: Error processing CSV: Error tokenizing data''\<rparr>,
        \<lparr>disk = [''/tmp''], analysis_requests = []\<rparr>) \<and>
   http_status (fst (analyze_data demo_env ''q'' [\<lparr>filename = ''bad.csv'', content = ''x''\<rparr>] demo_world))
     = 200"
  using demo_bad_csv by (simp add: demo_env_def http_status_def)

text \<open>
  C10. Every round of the ingestion loop that does not raise appends the file's name to
  the files list. A file of no known type that cannot be read as text is skipped: the
  round leaves the context and the descriptors as they were and still appends the name.
  So the files list of a finished ingestion is the list of all uploaded names, and it is the
  \<^verbatim>\<open>files_processed\<close> of the one record a completed request writes.
\<close>

theorem skipped_file_is_listed:
  "(ingest_file E d f (ctx, info) dsk = (Inr (ctx', info'), dsk') \<longrightarrow>
      files info' = files info @ [filename f]) \<and>
   (write_file E (path_join E d (filename f)) (content f) = None \<and>
    \<not> endswith (filename f) ''.csv'' \<and> \<not> endswith (filename f) ''.pdf'' \<and>
    \<not> endswith (lower (filename f)) ''.png'' \<and> \<not> endswith (lower (filename f)) ''.jpg'' \<and>
    \<not> endswith (lower (filename f)) ''.jpeg'' \<and> read_text E (content f) = Inl e \<longrightarrow>
      fst (ingest_file E d f (ctx, info) dsk) = Inr (ctx, info\<lparr>files := files info @ [filename f]\<rparr>)) \<and>
   (ingest_files E d ups ([], empty_file_info) dsk = (Inr (ctx', info'), dsk') \<longrightarrow>
      files info' = map filename ups) \<and>
   (analyze_data E q ups w = (Inr r, w') \<and> status r = ''completed'' \<longrightarrow>
      (\<exists>req. analysis_requests w' = analysis_requests w @ [req] \<and>
             files_processed req = map filename ups))"
proof (intro conjI impI)
  assume "ingest_file E d f (ctx, info) dsk = (Inr (ctx', info'), dsk')"
  from ingest_file_ok [OF this] show "files info' = files info @ [filename f]" by simp
next
  assume "write_file E (path_join E d (filename f)) (content f) = None \<and>
    \<not> endswith (filename f) ''.csv'' \<and> \<not> endswith (filename f) ''.pdf'' \<and>
    \<not> endswith (lower (filename f)) ''.png'' \<and> \<not> endswith (lower (filename f)) ''.jpg'' \<and>
    \<not> endswith (lower (filename f)) ''.jpeg'' \<and> read_text E (content f) = Inl e"
  then show "fst (ingest_file E d f (ctx, info) dsk) = Inr (ctx, info\<lparr>files := files info @ [filename f]\<rparr>)"
    by (simp add: ingest_file_def bind_file_def Let_def)
next
  assume "ingest_files E d ups ([], empty_file_info) dsk = (Inr (ctx', info'), dsk')"
  from ingest_files_ok [OF this] show "files info' = map filename ups"
    by (simp add: empty_file_info_def)
next
  assume a: "analyze_data E q ups w = (Inr r, w') \<and> status r = ''completed''"
  then have c: "analyze_data E q ups w = (Inr r, w')" and s: "status r = ''completed''"
    by simp_all
  from analyze_data_cases [OF c] s
  show "\<exists>req. analysis_requests w' = analysis_requests w @ [req] \<and>
             files_processed req = map filename ups"
  proof (elim disjE exE conjE)
    fix m
    assume "Inr r = Inr \<lparr>task_id = uuid4 E, result = PyNone,
                         execution_time = end_clock E - start_clock E,
                         status = ''error'', error = Some m\<rparr>"
    with s show ?thesis by auto
  next
    fix qt d ctx info d1 code v d2
    assume i: "ingest_files E d ups ([], empty_file_info) (d # disk w) = (Inr (ctx, info), d1)"
      and l: "analysis_requests w' = analysis_requests w @
              [\<lparr>req_task_id = uuid4 E, req_timestamp = utcnow E, req_question = qt,
                files_processed = files info, req_status = ''completed''\<rparr>]"
    from ingest_files_ok [OF i] have "files info = map filename ups"
      by (simp add: empty_file_info_def)
    with l show ?thesis by simp
  qed
qed

theorem skipped_file_is_listed_witness:
  "fst (ingest_file demo_env ''/tmp/tmpab'' \<lparr>filename = ''blob.bin'', content = [CHR 0xFF]\<rparr>
          ([], empty_file_info) [])
     = Inr ([], empty_file_info\<lparr>files := files empty_file_info @ [''blob.bin'']\<rparr>) \<and>
   (\<exists>req. analysis_requests
            \<lparr>disk = [''/tmp''],
             analysis_requests = [\<lparr>req_task_id = ''task-1'', req_timestamp = 0, req_question = ''q'',
                                   files_processed = [''data.csv'', ''blob.bin''],
                                   req_status = ''completed''\<rparr>]\<rparr>
            = analysis_requests demo_world @ [req] \<and>
          files_processed req = [''data.csv'', ''blob.bin''])"
proof -
  let ?f = "\<lparr>filename = ''blob.bin'', content = [CHR 0xFF]\<rparr>"
  let ?ups = "[\<lparr>filename = ''data.csv'', content = ''a,b\<newline>1,2\<newline>''\<rparr>, ?f]"
  have a: "write_file demo_env (path_join demo_env ''/tmp/tmpab'' (filename ?f)) (content ?f) = None \<and>
    \<not> endswith (filename ?f) ''.csv'' \<and> \<not> endswith (filename ?f) ''.pdf'' \<and>
    \<not> endswith (lower (filename ?f)) ''.png'' \<and> \<not> endswith (lower (filename ?f)) ''.jpg'' \<and>
    \<not> endswith (lower (filename ?f)) ''.jpeg'' \<and>
    read_text demo_env (content ?f) = Inl (PyException ''invalid start byte'')"
    by (simp add: demo_env_def endswith_def lower_def lower_char_def)
  have b: "analyze_data demo_env ''q'' ?ups demo_world
             = (Inr \<lparr>task_id = ''task-1'', result = PyInt 4, execution_time = 2, status = ''completed'',
                     error = None\<rparr>,
                \<lparr>disk = [''/tmp''],
                 analysis_requests = [\<lparr>req_task_id = ''task-1'', req_timestamp = 0, req_question = ''q'',
                             files_processed = [''data.csv'', ''blob.bin''],
                             req_status = ''completed''\<rparr>]\<rparr>) \<and>
           status \<lparr>task_id = ''task-1'', result = PyInt 4, execution_time = 2, status = ''completed'',
                     error = None\<rparr> = ''completed''"
    using demo_completed by simp
  note t = skipped_file_is_listed [of demo_env "''/tmp/tmpab''" ?f "[]" empty_file_info "[]" "[]"
      empty_file_info "[]" "PyException ''invalid start byte''" ?ups "''q''" demo_world
      "\<lparr>task_id = ''task-1'', result = PyInt 4, execution_time = 2, status = ''completed'',
                     error = None\<rparr>"
      "\<lparr>disk = [''/tmp''],
                 analysis_requests = [\<lparr>req_task_id = ''task-1'', req_timestamp = 0, req_question = ''q'',
                             files_processed = [''data.csv'', ''blob.bin''],
                             req_status = ''completed''\<rparr>]\<rparr>"]
  from t a have 1: "fst (ingest_file demo_env ''/tmp/tmpab'' ?f ([], empty_file_info) [])
     = Inr ([], empty_file_info\<lparr>files := files empty_file_info @ [''blob.bin'']\<rparr>)"
    by simp
  from t b have 2: "\<exists>req. analysis_requests
            \<lparr>disk = [''/tmp''],
             analysis_requests = [\<lparr>req_task_id = ''task-1'', req_timestamp = 0, req_question = ''q'',
                                   files_processed = [''data.csv'', ''blob.bin''],
                                   req_status = ''completed''\<rparr>]\<rparr>
            = analysis_requests demo_world @ [req] \<and>
          files_processed req = [''data.csv'', ''blob.bin'']"
    by simp
  from 1 2 show ?thesis by (rule conjI)
qed

end
